theory Spec2Isabelle
  imports Complex_Main "HOL-Library.Word"
begin

unbundle bit_operations_syntax

text \<open>
  A shallow embedding of the BGRA to YUY2 and NV12 to RGBA converters: the two texts of
  the encode compute shader (one storing to a \<open>RWByteAddressBuffer\<close>, one to a
  \<open>RWStructuredBuffer\<close>), the NV12 decode compute shader, and the sizing, validation
  and dispatch code of the two host classes. A work item of a shader is a function from
  its inputs to the store it performs, if any; a host method is a function to its
  \<open>HRESULT\<close> and the list of calls it makes.
\<close>

section \<open>HLSL scalars and vectors\<close>

text \<open>
  HLSL \<open>uint\<close> and the C++ \<open>UINT\<close> are 32-bit words: \<open>+\<close> and \<open>*\<close> wrap around.
  HLSL \<open>float\<close> is modelled by exact real arithmetic, and a decimal literal such as
  \<open>0.299f\<close> by the decimal fraction it is written as.
\<close>

type_synonym uint = "32 word"
type_synonym byte = "8 word"

text \<open>\<open>float3\<close>: the components \<open>(x, y, z)\<close>, also read as \<open>(r, g, b)\<close>.\<close>

type_synonym float3 = "real \<times> real \<times> real"

text \<open>\<open>float4\<close>: what \<open>Texture2D<float4>.Load\<close> returns, with its named channels.\<close>

record float4 =
  ch_r :: real
  ch_g :: real
  ch_b :: real
  ch_a :: real

text \<open>\<open>Texture2D<float4>\<close>: the texel at column \<open>x\<close> of row \<open>y\<close>.\<close>

type_synonym texture = "nat \<Rightarrow> nat \<Rightarrow> float4"

definition saturate :: "real \<Rightarrow> real" where
  "saturate v = min (max v 0) 1"

text \<open>HLSL \<open>clamp(x, min, max)\<close>.\<close>

definition clamp :: "real \<Rightarrow> real \<Rightarrow> real \<Rightarrow> real" where
  "clamp v lo hi = min (max v lo) hi"

text \<open>HLSL \<open>round\<close>: to the nearest integer, a tie to the even one.\<close>

definition round_ne :: "real \<Rightarrow> int" where
  "round_ne v =
     (let f = \<lfloor>v\<rfloor>; d = v - of_int f
      in if d < 1 / 2 then f
         else if 1 / 2 < d then f + 1
         else if even f then f else f + 1)"

text \<open>The cast \<open>(uint)\<close> of an integral float: negative values give 0, values above
  the 32-bit range give the largest \<open>uint\<close>.\<close>

definition to_uint :: "int \<Rightarrow> uint" where
  "to_uint i = (if i < 0 then 0 else if 2 ^ 32 \<le> i then - 1 else word_of_int i)"

section \<open>BGRAToYUY2.hlsl, the shader writing a RWByteAddressBuffer\<close>

record ConversionParams =
  ImageWidth :: uint
  ImageHeight :: uint
  OutputStride :: uint
  Padding :: uint

definition RGBToYUV :: "float3 \<Rightarrow> float3" where
  "RGBToYUV rgb =
     (case rgb of (r0, g0, b0) \<Rightarrow>
        let rr = saturate r0; gg = saturate g0; bb = saturate b0;
            Y = 0.299 * rr + 0.587 * gg + 0.114 * bb;
            U = - 0.14713 * rr - 0.28886 * gg + 0.436 * bb;
            V = 0.615 * rr - 0.51499 * gg - 0.10001 * bb;
            Y = Y * 219 + 16;
            U = (U + 0.5) * 224 + 16;
            V = (V + 0.5) * 224 + 16;
            Y = clamp Y 16 235;
            U = clamp U 16 240;
            V = clamp V 16 240
        in (Y, U, V))"

definition PackYUY2 :: "uint \<Rightarrow> uint \<Rightarrow> uint \<Rightarrow> uint \<Rightarrow> uint" where
  "PackYUY2 y0 u y1 v = push_bit 24 v OR push_bit 16 y1 OR push_bit 8 u OR y0"

text \<open>
  The locals \<open>y0, u, y1, v\<close> of \<open>CSMain\<close> once the bounds check has passed: the two
  texels, the swap into \<open>float3(pixel.b, pixel.g, pixel.r)\<close>, the two conversions, the
  chroma average and the rounding casts.
\<close>

definition CSMain_yuyv :: "texture \<Rightarrow> ConversionParams \<Rightarrow> uint \<times> uint \<Rightarrow> uint \<times> uint \<times> uint \<times> uint" where
  "CSMain_yuyv tex p tid =
     (let px = fst tid * 2; py = snd tid;
          pixel0 = tex (unat px) (unat py);
          pixel1 = (if px + 1 < ImageWidth p then tex (unat (px + 1)) (unat py) else pixel0);
          rgb0 = (ch_b pixel0, ch_g pixel0, ch_r pixel0);
          rgb1 = (ch_b pixel1, ch_g pixel1, ch_r pixel1)
      in case (RGBToYUV rgb0, RGBToYUV rgb1) of ((Y0, U0, V0), (Y1, U1, V1)) \<Rightarrow>
        let u_avg = (U0 + U1) * 0.5;
            v_avg = (V0 + V1) * 0.5;
            y0 = to_uint (round_ne Y0);
            y1 = to_uint (round_ne Y1);
            u = to_uint (round_ne u_avg);
            v = to_uint (round_ne v_avg)
        in (y0, u, y1, v))"

text \<open>
  One work item: \<open>None\<close> when it returns without a store, \<open>Some (byteOffset, word)\<close>
  for \<open>OutputBuffer.Store(byteOffset, packedYUY2)\<close>.
\<close>

definition CSMain :: "texture \<Rightarrow> ConversionParams \<Rightarrow> uint \<times> uint \<Rightarrow> (uint \<times> uint) option" where
  "CSMain tex p tid =
     (let px = fst tid * 2; py = snd tid
      in if ImageWidth p \<le> px \<or> ImageHeight p \<le> py then None
         else case CSMain_yuyv tex p tid of (y0, u, y1, v) \<Rightarrow>
           let packedYUY2 = PackYUY2 y0 u y1 v;
               outputIndex = py * ((ImageWidth p + 1) div 2) + fst tid;
               byteOffset = outputIndex * 4;
               maxIndex = ((ImageWidth p + 1) div 2) * ImageHeight p
           in if outputIndex < maxIndex then Some (byteOffset, packedYUY2) else None)"

text \<open>The four bytes a little-endian store of a 32-bit word puts in memory, lowest
  address first.\<close>

definition store_bytes :: "uint \<Rightarrow> byte list" where
  "store_bytes w = [ucast w, ucast (drop_bit 8 w), ucast (drop_bit 16 w), ucast (drop_bit 24 w)]"

section \<open>BGRAToYUY2.hlsl, the shader writing a RWStructuredBuffer\<close>

definition RGB_TO_YUV_MATRIX :: "float3 \<times> float3 \<times> float3" where
  "RGB_TO_YUV_MATRIX =
     ((0.299, 0.587, 0.114),
      (- 0.169, - 0.331, 0.500),
      (0.500, - 0.419, - 0.081))"

definition dot :: "float3 \<Rightarrow> float3 \<Rightarrow> real" where
  "dot u v = (case (u, v) of ((u1, u2, u3), (v1, v2, v3)) \<Rightarrow> u1 * v1 + u2 * v2 + u3 * v3)"

text \<open>HLSL \<open>mul(M, v)\<close> of a matrix given by its rows and a column vector.\<close>

definition mul :: "float3 \<times> float3 \<times> float3 \<Rightarrow> float3 \<Rightarrow> float3" where
  "mul M v = (case M of (row1, row2, row3) \<Rightarrow> (dot row1 v, dot row2 v, dot row3 v))"

definition RGBToYUV_sb :: "float3 \<Rightarrow> float3" where
  "RGBToYUV_sb rgb =
     (case mul RGB_TO_YUV_MATRIX rgb of (Y, U, V) \<Rightarrow>
        let Y = Y * 219 + 16;
            U = U * 224 + 128;
            V = V * 224 + 128;
            Y = clamp Y 16 235;
            U = clamp U 16 240;
            V = clamp V 16 240
        in (Y, U, V))"

text \<open>The locals \<open>y0, u, y1, v\<close> of this shader's \<open>CSMain\<close>, which takes
  \<open>pixel.rgb\<close> as it is.\<close>

definition CSMain_yuyv_sb :: "texture \<Rightarrow> ConversionParams \<Rightarrow> uint \<times> uint \<Rightarrow> uint \<times> uint \<times> uint \<times> uint" where
  "CSMain_yuyv_sb tex p tid =
     (let px = fst tid * 2; py = snd tid;
          pixel0 = tex (unat px) (unat py);
          hasSecondPixel = (px + 1 < ImageWidth p);
          pixel1 = (if hasSecondPixel then tex (unat (px + 1)) (unat py) else pixel0);
          rgb0 = (ch_r pixel0, ch_g pixel0, ch_b pixel0);
          rgb1 = (ch_r pixel1, ch_g pixel1, ch_b pixel1)
      in case (RGBToYUV_sb rgb0, RGBToYUV_sb rgb1) of ((Y0, U0, V0), (Y1, U1, V1)) \<Rightarrow>
        let u_avg = (U0 + U1) * 0.5;
            v_avg = (V0 + V1) * 0.5;
            y0 = to_uint (round_ne Y0);
            y1 = to_uint (round_ne Y1);
            u = to_uint (round_ne u_avg);
            v = to_uint (round_ne v_avg)
        in (y0, u, y1, v))"

text \<open>One work item: \<open>Some (outputIndex, word)\<close> for
  \<open>OutputBuffer[outputIndex] = packedYUY2\<close>.\<close>

definition CSMain_sb :: "texture \<Rightarrow> ConversionParams \<Rightarrow> uint \<times> uint \<Rightarrow> (uint \<times> uint) option" where
  "CSMain_sb tex p tid =
     (let px = fst tid * 2; py = snd tid
      in if ImageWidth p \<le> px \<or> ImageHeight p \<le> py then None
         else case CSMain_yuyv_sb tex p tid of (y0, u, y1, v) \<Rightarrow>
           let packedYUY2 = PackYUY2 y0 u y1 v;
               outputIndex = py * ((ImageWidth p + 1) div 2) + px div 2
           in Some (outputIndex, packedYUY2))"

section \<open>NV12ToRGBA.hlsl\<close>

record NV12ConversionParams =
  ImageWidthNV12 :: uint
  ImageHeightNV12 :: uint
  YPlaneStride :: uint
  UVPlaneStride :: uint

definition YUV_TO_RGB_MATRIX :: "float3 \<times> float3 \<times> float3" where
  "YUV_TO_RGB_MATRIX =
     ((1.000, 0.000, 1.402),
      (1.000, - 0.344, - 0.714),
      (1.000, 1.772, 0.000))"

definition YUVToRGB :: "real \<Rightarrow> real \<Rightarrow> real \<Rightarrow> float3" where
  "YUVToRGB y u v =
     (let y = (y - 16) / 219;
          u = (u - 128) / 224;
          v = (v - 128) / 224;
          yuv = (y, u, v)
      in case mul YUV_TO_RGB_MATRIX yuv of (r0, g0, b0) \<Rightarrow>
           (saturate r0, saturate g0, saturate b0))"

text \<open>
  \<open>RWByteAddressBuffer.Load(address)\<close> returns one 32-bit value: the four bytes at
  \<open>address .. address + 3\<close>, lowest address in the low bits, and 0 when they do not lie
  inside the view. The address has to be a multiple of 4; what a load at another address
  returns is left to the device, and is the parameter \<open>dev\<close> here.
\<close>

definition load_word :: "byte list \<Rightarrow> nat \<Rightarrow> uint" where
  "load_word buf i =
     (if i + 4 \<le> length buf
      then ucast (buf ! i) OR push_bit 8 (ucast (buf ! (i + 1)))
           OR push_bit 16 (ucast (buf ! (i + 2))) OR push_bit 24 (ucast (buf ! (i + 3)))
      else 0)"

definition Load :: "(uint \<Rightarrow> uint) \<Rightarrow> byte list \<Rightarrow> uint \<Rightarrow> uint" where
  "Load dev buf address =
     (if unat address mod 4 = 0 then load_word buf (unat address) else dev address)"

text \<open>The locals \<open>yValue, uValue, vValue\<close> of the shader's \<open>CSMain\<close>.\<close>

definition CSMain_nv12_loads ::
  "(uint \<Rightarrow> uint) \<Rightarrow> byte list \<Rightarrow> NV12ConversionParams \<Rightarrow> uint \<times> uint \<Rightarrow> uint \<times> uint \<times> uint" where
  "CSMain_nv12_loads dev buf p tid =
     (let px = fst tid; py = snd tid;
          yOffset = py * YPlaneStride p + px;
          yValue = Load dev buf yOffset;
          uvX = (px div 2) * 2;
          uvY = py div 2;
          uvPlaneOffset = ImageWidthNV12 p * ImageHeightNV12 p;
          uvOffset = uvPlaneOffset + uvY * UVPlaneStride p + uvX;
          uValue = Load dev buf uvOffset;
          vValue = Load dev buf (uvOffset + 1)
      in (yValue, uValue, vValue))"

text \<open>
  One work item: \<open>None\<close> when it returns at the bounds check, \<open>Some (pixelPos, rgba)\<close>
  for \<open>OutputTexture[pixelPos] = rgba\<close>. The cast \<open>(float)yValue\<close> is taken exact.
\<close>

definition CSMain_nv12 ::
  "(uint \<Rightarrow> uint) \<Rightarrow> byte list \<Rightarrow> NV12ConversionParams \<Rightarrow> uint \<times> uint \<Rightarrow> ((uint \<times> uint) \<times> float4) option" where
  "CSMain_nv12 dev buf p tid =
     (if ImageWidthNV12 p \<le> fst tid \<or> ImageHeightNV12 p \<le> snd tid then None
      else case CSMain_nv12_loads dev buf p tid of (yValue, uValue, vValue) \<Rightarrow>
        let y = real (unat yValue);
            u = real (unat uValue);
            v = real (unat vValue)
        in case YUVToRGB y u v of (r0, g0, b0) \<Rightarrow>
             Some (tid, \<lparr>ch_r = r0, ch_g = g0, ch_b = b0, ch_a = 1.0\<rparr>))"

text \<open>
  A write to, or a read from, an 8-bit UNORM texture channel: the float is clamped to
  \<open>[0, 1]\<close>, scaled by 255 and rounded to the nearest byte; a byte \<open>c\<close> reads back as
  \<open>c / 255\<close>.
\<close>

definition float_to_unorm8 :: "real \<Rightarrow> byte" where
  "float_to_unorm8 c = word_of_int \<lfloor>saturate c * 255 + 0.5\<rfloor>"

definition unorm8_to_float :: "byte \<Rightarrow> real" where
  "unorm8_to_float c = real (unat c) / 255"

text \<open>The texel a shader loads from an 8-bit UNORM texture whose red, green, blue and
  alpha bytes are \<open>R, G, B, A\<close>, in whichever order the format keeps them in memory.\<close>

definition unorm_texel :: "byte \<Rightarrow> byte \<Rightarrow> byte \<Rightarrow> byte \<Rightarrow> float4" where
  "unorm_texel R G B A =
     \<lparr>ch_r = unorm8_to_float R, ch_g = unorm8_to_float G,
      ch_b = unorm8_to_float B, ch_a = unorm8_to_float A\<rparr>"

text \<open>The red, green and blue bytes of a colour written to an 8-bit UNORM texture.\<close>

definition to_unorm8 :: "float3 \<Rightarrow> byte \<times> byte \<times> byte" where
  "to_unorm8 rgb =
     (case rgb of (r0, g0, b0) \<Rightarrow> (float_to_unorm8 r0, float_to_unorm8 g0, float_to_unorm8 b0))"

section \<open>The host side: BGRAToYUY2Converter and NV12ToRGBAConverter\<close>

type_synonym HRESULT = "32 word"

definition S_OK :: HRESULT where "S_OK = 0"
definition E_FAIL :: HRESULT where "E_FAIL = 0x80004005"
definition E_INVALIDARG :: HRESULT where "E_INVALIDARG = 0x80070057"

definition FAILED :: "HRESULT \<Rightarrow> bool" where
  "FAILED hr = (sint hr < 0)"

text \<open>\<open>DXGI_FORMAT\<close> by its enumeration value; the four values are those the
  converter's own error message prints.\<close>

type_synonym DXGI_FORMAT = nat

definition DXGI_FORMAT_R8G8B8A8_UNORM :: DXGI_FORMAT where "DXGI_FORMAT_R8G8B8A8_UNORM = 28"
definition DXGI_FORMAT_R8G8B8A8_UNORM_SRGB :: DXGI_FORMAT where "DXGI_FORMAT_R8G8B8A8_UNORM_SRGB = 29"
definition DXGI_FORMAT_B8G8R8A8_UNORM :: DXGI_FORMAT where "DXGI_FORMAT_B8G8R8A8_UNORM = 87"
definition DXGI_FORMAT_B8G8R8A8_UNORM_SRGB :: DXGI_FORMAT where "DXGI_FORMAT_B8G8R8A8_UNORM_SRGB = 91"

datatype D3D11_USAGE = D3D11_USAGE_DEFAULT | D3D11_USAGE_DYNAMIC | D3D11_USAGE_STAGING

datatype D3D11_FLAG =
    D3D11_BIND_UNORDERED_ACCESS
  | D3D11_CPU_ACCESS_READ
  | D3D11_RESOURCE_MISC_BUFFER_ALLOW_RAW_VIEWS

text \<open>A flag field is the list of the flags or-ed into it; \<open>[]\<close> is 0.\<close>

record D3D11_BUFFER_DESC =
  ByteWidth :: uint
  Usage :: D3D11_USAGE
  BindFlags :: "D3D11_FLAG list"
  CPUAccessFlags :: "D3D11_FLAG list"
  MiscFlags :: "D3D11_FLAG list"
  StructureByteStride :: uint

text \<open>
  What a method does to the device, the context and the log, in order. The answers of the
  device (\<open>HRESULT\<close>s) are arguments of the model.
\<close>

datatype call =
    GetDesc
  | LogError
  | LogMessage
  | Print_cerr
  | CreateBuffer D3D11_BUFFER_DESC
  | CreateShaderResourceView DXGI_FORMAT
  | CreateUnorderedAccessView uint
  | Map_buffer
  | Write_params ConversionParams
  | Unmap
  | CopyResource
  | Copy_out uint
  | CSSetShader
  | CSSetShaderResources bool
  | CSSetUnorderedAccessViews bool
  | CSSetConstantBuffers
  | Dispatch uint uint uint
  | Release

definition CreateOutputBuffer :: "HRESULT \<Rightarrow> uint \<Rightarrow> uint \<Rightarrow> HRESULT \<times> call list" where
  "CreateOutputBuffer createResult width height =
     (let yuy2Size = ((width + 1) div 2) * height * 4;
          bufferDesc = \<lparr>ByteWidth = yuy2Size, Usage = D3D11_USAGE_DEFAULT,
             BindFlags = [D3D11_BIND_UNORDERED_ACCESS], CPUAccessFlags = [],
             MiscFlags = [D3D11_RESOURCE_MISC_BUFFER_ALLOW_RAW_VIEWS], StructureByteStride = 0\<rparr>;
          hr = createResult
      in (hr, CreateBuffer bufferDesc # (if FAILED hr then [LogError] else [])))"

text \<open>
  \<open>ReadOutputBuffer\<close>: \<open>buffer\<close> and \<open>outData\<close> say whether the pointers are
  non-null, \<open>dataSize\<close> is the caller's variable passed by reference; the result is
  the \<open>HRESULT\<close>, the variable afterwards and the calls.
\<close>

definition ReadOutputBuffer ::
  "HRESULT \<Rightarrow> HRESULT \<Rightarrow> bool \<Rightarrow> uint \<Rightarrow> uint \<Rightarrow> bool \<Rightarrow> uint \<Rightarrow> HRESULT \<times> uint \<times> call list" where
  "ReadOutputBuffer createResult mapResult buffer width height outData dataSize =
     (if \<not> buffer \<or> \<not> outData then (E_INVALIDARG, dataSize, [])
      else
        let dataSize = ((width + 1) div 2) * height * 4;
            stagingDesc = \<lparr>ByteWidth = dataSize, Usage = D3D11_USAGE_STAGING,
               BindFlags = [], CPUAccessFlags = [D3D11_CPU_ACCESS_READ],
               MiscFlags = [], StructureByteStride = 0\<rparr>;
            hr = createResult
        in if FAILED hr then (hr, dataSize, [CreateBuffer stagingDesc])
           else
             let hr = mapResult
             in (hr, dataSize,
                 [CreateBuffer stagingDesc, CopyResource, Map_buffer]
                 @ (if \<not> FAILED hr then [Copy_out dataSize, Unmap] else [])
                 @ [Release]))"

definition CreateNV12InputBuffer :: "HRESULT \<Rightarrow> uint \<Rightarrow> uint \<Rightarrow> HRESULT \<times> call list" where
  "CreateNV12InputBuffer createResult width height =
     (let yPlaneSize = width * height;
          uvPlaneSize = width * height div 2;
          totalSize = yPlaneSize + uvPlaneSize;
          bufferDesc = \<lparr>ByteWidth = totalSize, Usage = D3D11_USAGE_DEFAULT,
             BindFlags = [D3D11_BIND_UNORDERED_ACCESS], CPUAccessFlags = [],
             MiscFlags = [D3D11_RESOURCE_MISC_BUFFER_ALLOW_RAW_VIEWS], StructureByteStride = 0\<rparr>;
          hr = createResult
      in (hr, CreateBuffer bufferDesc # (if FAILED hr then [LogError] else [])))"

text \<open>The \<open>ByteWidth\<close> of every buffer created by a sequence of calls.\<close>

definition buffer_sizes :: "call list \<Rightarrow> uint list" where
  "buffer_sizes calls =
     List.map_filter (\<lambda>c. case c of CreateBuffer d \<Rightarrow> Some (ByteWidth d) | _ \<Rightarrow> None) calls"

text \<open>The locals \<open>dispatchX\<close> and \<open>dispatchY\<close> of \<open>BGRAToYUY2Converter::Convert\<close>.\<close>

definition dispatchX :: "uint \<Rightarrow> uint" where
  "dispatchX width = (width + 31) div 32"

definition dispatchY :: "uint \<Rightarrow> uint" where
  "dispatchY height = (height + 15) div 16"

text \<open>
  \<open>BGRAToYUY2Converter::Convert\<close>. \<open>inputTexture\<close> is \<open>None\<close> for a null pointer
  and otherwise the format its descriptor reports; \<open>outputBuffer\<close> says whether the
  pointer is non-null; \<open>logDue\<close> whether ten seconds have passed since the last
  success message. A failed \<open>ThrowIfFailed\<close> prints, throws, and the handler logs and
  returns \<open>E_FAIL\<close>.
\<close>

record ConverterState =
  m_initialized :: bool
  srvResult :: HRESULT
  uavResult :: HRESULT
  mapResult :: HRESULT
  logDue :: bool

definition Convert ::
  "ConverterState \<Rightarrow> DXGI_FORMAT option \<Rightarrow> bool \<Rightarrow> uint \<Rightarrow> uint \<Rightarrow> HRESULT \<times> call list" where
  "Convert st inputTexture outputBuffer width height =
     (case inputTexture of
        None \<Rightarrow> (E_INVALIDARG, [])
      | Some texFormat \<Rightarrow>
          if \<not> m_initialized st \<or> \<not> outputBuffer then (E_INVALIDARG, [])
          else if texFormat \<noteq> DXGI_FORMAT_B8G8R8A8_UNORM
                  \<and> texFormat \<noteq> DXGI_FORMAT_R8G8B8A8_UNORM
                  \<and> texFormat \<noteq> DXGI_FORMAT_B8G8R8A8_UNORM_SRGB
                  \<and> texFormat \<noteq> DXGI_FORMAT_R8G8B8A8_UNORM_SRGB
          then (E_INVALIDARG, [GetDesc, LogError])
          else
            let srvFormat =
                  (if texFormat = DXGI_FORMAT_B8G8R8A8_UNORM_SRGB then DXGI_FORMAT_B8G8R8A8_UNORM
                   else if texFormat = DXGI_FORMAT_R8G8B8A8_UNORM_SRGB then DXGI_FORMAT_R8G8B8A8_UNORM
                   else texFormat);
                t1 = [GetDesc, CreateShaderResourceView srvFormat]
            in if FAILED (srvResult st) then (srvResult st, t1 @ [LogError])
               else
                 let numElements = (((width + 1) div 2) * height * 4) div 4;
                     t2 = t1 @ [CreateUnorderedAccessView numElements]
                 in if FAILED (uavResult st) then (E_FAIL, t2 @ [Print_cerr, LogError])
                    else
                      let t3 = t2 @ [Map_buffer]
                      in if FAILED (mapResult st) then (E_FAIL, t3 @ [Print_cerr, LogError])
                         else
                           let params = \<lparr>ImageWidth = width, ImageHeight = height,
                                   OutputStride = ((width + 1) div 2) * 4, Padding = 0\<rparr>
                           in (S_OK,
                               t3 @ [Write_params params, Unmap, CSSetShader,
                                     CSSetShaderResources True, CSSetUnorderedAccessViews True,
                                     CSSetConstantBuffers,
                                     Dispatch (dispatchX width) (dispatchY height) 1,
                                     CSSetShaderResources False, CSSetUnorderedAccessViews False,
                                     Release, Release]
                               @ (if logDue st then [LogMessage] else [])))"

section \<open>A dispatch as the set of its work items\<close>

text \<open>
  \<open>Dispatch(X, Y, 1)\<close> of a shader with \<open>numthreads(16, 16, 1)\<close> runs one work item
  for every \<open>SV_DispatchThreadID\<close> in \<open>[0, 16 X) \<times> [0, 16 Y)\<close>. The model runs
  every group count; Direct3D 11 itself accepts at most 65535 groups in a dimension.
\<close>

definition thread_ids :: "uint \<Rightarrow> uint \<Rightarrow> (uint \<times> uint) list" where
  "thread_ids X Y =
     map (\<lambda>(x, y). (of_nat x, of_nat y)) (List.product [0..<16 * unat X] [0..<16 * unat Y])"

text \<open>The stores of one dispatch of the byte-address shader, one per work item that
  stores.\<close>

definition Dispatch_stores :: "texture \<Rightarrow> ConversionParams \<Rightarrow> uint \<Rightarrow> uint \<Rightarrow> (uint \<times> uint) list" where
  "Dispatch_stores tex p X Y = List.map_filter (CSMain tex p) (thread_ids X Y)"

section \<open>Notions of the specification\<close>

text \<open>The specification's \<open>ceil(a / b)\<close> on natural numbers.\<close>

definition ceil_div :: "nat \<Rightarrow> nat \<Rightarrow> nat" where
  "ceil_div n d = (n + d - 1) div d"

text \<open>
  The macropixel of one pixel paired with a duplicate of itself: its luma in both luma
  slots, its own chroma rounded without averaging. One definition for each shader's
  colour transform.
\<close>

definition duplicated_pixel_yuyv :: "float4 \<Rightarrow> uint \<times> uint \<times> uint \<times> uint" where
  "duplicated_pixel_yuyv pixel =
     (case RGBToYUV (ch_b pixel, ch_g pixel, ch_r pixel) of (Y, U, V) \<Rightarrow>
        (to_uint (round_ne Y), to_uint (round_ne U), to_uint (round_ne Y), to_uint (round_ne V)))"

definition duplicated_pixel_yuyv_sb :: "float4 \<Rightarrow> uint \<times> uint \<times> uint \<times> uint" where
  "duplicated_pixel_yuyv_sb pixel =
     (case RGBToYUV_sb (ch_r pixel, ch_g pixel, ch_b pixel) of (Y, U, V) \<Rightarrow>
        (to_uint (round_ne Y), to_uint (round_ne U), to_uint (round_ne Y), to_uint (round_ne V)))"

text \<open>The byte triple of a converted colour: each component rounded as the shaders
  round.\<close>

definition byte_triple :: "float3 \<Rightarrow> int \<times> int \<times> int" where
  "byte_triple yuv = (case yuv of (Y, U, V) \<Rightarrow> (round_ne Y, round_ne U, round_ne V))"

text \<open>The round trip of the specification: the first pixel of a macropixel, decoded by
  the decode colour transform and written as bytes.\<close>

definition decode_first_pixel :: "uint \<times> uint \<times> uint \<times> uint \<Rightarrow> byte \<times> byte \<times> byte" where
  "decode_first_pixel m =
     (case m of (y0, u, y1, v) \<Rightarrow>
        to_unorm8 (YUVToRGB (real (unat y0)) (real (unat u)) (real (unat v))))"

section \<open>Concrete inputs\<close>

definition solid :: "float4 \<Rightarrow> texture" where
  "solid c = (\<lambda>x y. c)"

definition red :: float4 where
  "red = \<lparr>ch_r = 1, ch_g = 0, ch_b = 0, ch_a = 1\<rparr>"

definition params_4x2 :: ConversionParams where
  "params_4x2 = \<lparr>ImageWidth = 4, ImageHeight = 2, OutputStride = 8, Padding = 0\<rparr>"

definition params_1x2 :: ConversionParams where
  "params_1x2 = \<lparr>ImageWidth = 1, ImageHeight = 2, OutputStride = 4, Padding = 0\<rparr>"

definition params_5x3 :: ConversionParams where
  "params_5x3 = \<lparr>ImageWidth = 5, ImageHeight = 3, OutputStride = 12, Padding = 0\<rparr>"

definition params_nv12_4x2 :: NV12ConversionParams where
  "params_nv12_4x2 = \<lparr>ImageWidthNV12 = 4, ImageHeightNV12 = 2, YPlaneStride = 4, UVPlaneStride = 4\<rparr>"

definition nv12_black_4x2 :: "byte list" where
  "nv12_black_4x2 = [16, 16, 16, 16, 16, 16, 16, 16, 128, 128, 128, 128]"

definition initialised :: ConverterState where
  "initialised = \<lparr>m_initialized = True, srvResult = S_OK, uavResult = S_OK, mapResult = S_OK, logDue = False\<rparr>"

section \<open>Scalar facts\<close>

lemma clamp_range: "lo \<le> hi \<Longrightarrow> lo \<le> clamp v lo hi \<and> clamp v lo hi \<le> hi"
  by (simp add: clamp_def)

lemma round_ne_lower:
  assumes "of_int lo \<le> v"
  shows "lo \<le> round_ne v"
proof -
  have "lo \<le> \<lfloor>v\<rfloor>" using assms by (simp add: le_floor_iff)
  then show ?thesis by (simp add: round_ne_def Let_def)
qed

lemma round_ne_upper:
  assumes "v \<le> of_int hi"
  shows "round_ne v \<le> hi"
proof -
  have f: "\<lfloor>v\<rfloor> \<le> hi" using assms by (simp add: floor_le_iff)
  have "\<lfloor>v\<rfloor> + 1 \<le> hi" if "1 / 2 \<le> v - of_int \<lfloor>v\<rfloor>"
  proof -
    have "of_int \<lfloor>v\<rfloor> < (of_int hi :: real)" using that assms by linarith
    then have "\<lfloor>v\<rfloor> < hi" by simp
    then show ?thesis by simp
  qed
  with f show ?thesis by (simp add: round_ne_def Let_def)
qed

lemma unat_to_uint:
  assumes "0 \<le> i" "i < 2 ^ 32"
  shows "unat (to_uint i) = nat i"
  using assms by (simp add: to_uint_def unsigned_of_int take_bit_int_eq_self)

text \<open>A float between two byte values rounds and casts to a \<open>uint\<close> between them.\<close>

lemma to_uint_round_range:
  assumes "of_int lo \<le> v" "v \<le> of_int hi" "0 \<le> lo" "hi < 256"
  shows "nat lo \<le> unat (to_uint (round_ne v)) \<and> unat (to_uint (round_ne v)) \<le> nat hi"
proof -
  have l: "lo \<le> round_ne v" and h: "round_ne v \<le> hi"
    using assms round_ne_lower round_ne_upper by auto
  then have "unat (to_uint (round_ne v)) = nat (round_ne v)"
    using assms by (intro unat_to_uint) auto
  with l h show ?thesis by auto
qed

lemma unat_ucast_byte:
  fixes w :: uint
  assumes "unat w < 256"
  shows "unat (ucast w :: byte) = unat w"
  using assms by (simp add: unsigned_ucast_eq take_bit_eq_mod)

lemma ucast_byte_id:
  fixes w :: uint
  assumes "unat w < 256"
  shows "ucast (ucast w :: byte) = w"
  using assms by (simp add: word_unat_eq_iff unsigned_ucast_eq take_bit_eq_mod unat_mod_distrib)

lemma store_bytes_pack_bytes:
  fixes a0 a1 a2 a3 :: byte
  shows "store_bytes (PackYUY2 (ucast a0) (ucast a1) (ucast a2) (ucast a3)) = [a0, a1, a2, a3]"
  unfolding store_bytes_def PackYUY2_def
  by (auto simp: bit_eq_iff bit_simps dest: bit_imp_le_length)

lemma store_bytes_PackYUY2:
  assumes "unat y0 < 256" "unat u < 256" "unat y1 < 256" "unat v < 256"
  shows "store_bytes (PackYUY2 y0 u y1 v) = [ucast y0, ucast u, ucast y1, ucast v]"
  using store_bytes_pack_bytes [of "ucast y0" "ucast u" "ucast y1" "ucast v"] assms
  by (simp add: ucast_byte_id)

section \<open>The colour transform stays in the studio range\<close>

lemma RGBToYUV_range:
  assumes "RGBToYUV rgb = (Y, U, V)"
  shows "16 \<le> Y \<and> Y \<le> 235 \<and> 16 \<le> U \<and> U \<le> 240 \<and> 16 \<le> V \<and> V \<le> 240"
  using assms unfolding RGBToYUV_def Let_def
  by (auto split: prod.splits simp: clamp_range)

lemma RGBToYUV_sb_range:
  assumes "RGBToYUV_sb rgb = (Y, U, V)"
  shows "16 \<le> Y \<and> Y \<le> 235 \<and> 16 \<le> U \<and> U \<le> 240 \<and> 16 \<le> V \<and> V \<le> 240"
  using assms unfolding RGBToYUV_sb_def Let_def
  by (auto split: prod.splits simp: clamp_range)

text \<open>Rounding the two lumas and the two averaged chromas of a pixel pair.\<close>

lemma quantise_range:
  assumes "16 \<le> Y0 \<and> Y0 \<le> 235 \<and> 16 \<le> U0 \<and> U0 \<le> 240 \<and> 16 \<le> V0 \<and> V0 \<le> 240"
      and "16 \<le> Y1 \<and> Y1 \<le> 235 \<and> 16 \<le> U1 \<and> U1 \<le> 240 \<and> 16 \<le> V1 \<and> V1 \<le> (240::real)"
  shows "16 \<le> unat (to_uint (round_ne Y0)) \<and> unat (to_uint (round_ne Y0)) \<le> 235"
    and "16 \<le> unat (to_uint (round_ne Y1)) \<and> unat (to_uint (round_ne Y1)) \<le> 235"
    and "16 \<le> unat (to_uint (round_ne ((U0 + U1) * 0.5)))
         \<and> unat (to_uint (round_ne ((U0 + U1) * 0.5))) \<le> 240"
    and "16 \<le> unat (to_uint (round_ne ((V0 + V1) * 0.5)))
         \<and> unat (to_uint (round_ne ((V0 + V1) * 0.5))) \<le> 240"
proof -
  show "16 \<le> unat (to_uint (round_ne Y0)) \<and> unat (to_uint (round_ne Y0)) \<le> 235"
    using to_uint_round_range [of 16 Y0 235] assms(1) by simp
  show "16 \<le> unat (to_uint (round_ne Y1)) \<and> unat (to_uint (round_ne Y1)) \<le> 235"
    using to_uint_round_range [of 16 Y1 235] assms(2) by simp
  have "16 \<le> (U0 + U1) * 0.5" "(U0 + U1) * 0.5 \<le> 240"
    using assms by auto
  then show "16 \<le> unat (to_uint (round_ne ((U0 + U1) * 0.5)))
         \<and> unat (to_uint (round_ne ((U0 + U1) * 0.5))) \<le> 240"
    using to_uint_round_range [of 16 "(U0 + U1) * 0.5" 240] by simp
  have "16 \<le> (V0 + V1) * 0.5" "(V0 + V1) * 0.5 \<le> 240"
    using assms by auto
  then show "16 \<le> unat (to_uint (round_ne ((V0 + V1) * 0.5)))
         \<and> unat (to_uint (round_ne ((V0 + V1) * 0.5))) \<le> 240"
    using to_uint_round_range [of 16 "(V0 + V1) * 0.5" 240] by simp
qed

lemma CSMain_yuyv_range:
  assumes "CSMain_yuyv tex p tid = (y0, u, y1, v)"
  shows "16 \<le> unat y0 \<and> unat y0 \<le> 235 \<and> 16 \<le> unat y1 \<and> unat y1 \<le> 235
         \<and> 16 \<le> unat u \<and> unat u \<le> 240 \<and> 16 \<le> unat v \<and> unat v \<le> 240"
proof -
  define pixel0 where "pixel0 = tex (unat (fst tid * 2)) (unat (snd tid))"
  define pixel1 where "pixel1 = (if fst tid * 2 + 1 < ImageWidth p
     then tex (unat (fst tid * 2 + 1)) (unat (snd tid)) else pixel0)"
  obtain Y0 U0 V0 where c0: "RGBToYUV (ch_b pixel0, ch_g pixel0, ch_r pixel0) = (Y0, U0, V0)"
    by (cases "RGBToYUV (ch_b pixel0, ch_g pixel0, ch_r pixel0)") auto
  obtain Y1 U1 V1 where c1: "RGBToYUV (ch_b pixel1, ch_g pixel1, ch_r pixel1) = (Y1, U1, V1)"
    by (cases "RGBToYUV (ch_b pixel1, ch_g pixel1, ch_r pixel1)") auto
  have e: "y0 = to_uint (round_ne Y0)" "y1 = to_uint (round_ne Y1)"
    "u = to_uint (round_ne ((U0 + U1) * 0.5))" "v = to_uint (round_ne ((V0 + V1) * 0.5))"
    using assms c0 c1 unfolding CSMain_yuyv_def Let_def pixel0_def pixel1_def by auto
  show ?thesis
    unfolding e
    using quantise_range [OF RGBToYUV_range [OF c0] RGBToYUV_range [OF c1]] by blast
qed

lemma CSMain_yuyv_sb_range:
  assumes "CSMain_yuyv_sb tex p tid = (y0, u, y1, v)"
  shows "16 \<le> unat y0 \<and> unat y0 \<le> 235 \<and> 16 \<le> unat y1 \<and> unat y1 \<le> 235
         \<and> 16 \<le> unat u \<and> unat u \<le> 240 \<and> 16 \<le> unat v \<and> unat v \<le> 240"
proof -
  define pixel0 where "pixel0 = tex (unat (fst tid * 2)) (unat (snd tid))"
  define pixel1 where "pixel1 = (if fst tid * 2 + 1 < ImageWidth p
     then tex (unat (fst tid * 2 + 1)) (unat (snd tid)) else pixel0)"
  obtain Y0 U0 V0 where c0: "RGBToYUV_sb (ch_r pixel0, ch_g pixel0, ch_b pixel0) = (Y0, U0, V0)"
    by (cases "RGBToYUV_sb (ch_r pixel0, ch_g pixel0, ch_b pixel0)") auto
  obtain Y1 U1 V1 where c1: "RGBToYUV_sb (ch_r pixel1, ch_g pixel1, ch_b pixel1) = (Y1, U1, V1)"
    by (cases "RGBToYUV_sb (ch_r pixel1, ch_g pixel1, ch_b pixel1)") auto
  have e: "y0 = to_uint (round_ne Y0)" "y1 = to_uint (round_ne Y1)"
    "u = to_uint (round_ne ((U0 + U1) * 0.5))" "v = to_uint (round_ne ((V0 + V1) * 0.5))"
    using assms c0 c1 unfolding CSMain_yuyv_sb_def Let_def pixel0_def pixel1_def by auto
  show ?thesis
    unfolding e
    using quantise_range [OF RGBToYUV_sb_range [OF c0] RGBToYUV_sb_range [OF c1]] by blast
qed

text \<open>Either shader stores the packed word of its four locals, or nothing.\<close>

lemma CSMain_Some_word:
  assumes "CSMain tex p tid = Some (off, w)" and "CSMain_yuyv tex p tid = (y0, u, y1, v)"
  shows "w = PackYUY2 y0 u y1 v"
  using assms unfolding CSMain_def Let_def by (auto split: if_splits)

lemma CSMain_sb_Some_word:
  assumes "CSMain_sb tex p tid = Some (off, w)" and "CSMain_yuyv_sb tex p tid = (y0, u, y1, v)"
  shows "w = PackYUY2 y0 u y1 v"
  using assms unfolding CSMain_sb_def Let_def by (auto split: if_splits)

text \<open>The bytes of a packed word whose four fields are in the studio range.\<close>

lemma studio_fields_bytes:
  assumes "16 \<le> unat y0 \<and> unat y0 \<le> 235 \<and> 16 \<le> unat y1 \<and> unat y1 \<le> 235
         \<and> 16 \<le> unat u \<and> unat u \<le> 240 \<and> 16 \<le> unat v \<and> unat v \<le> 240"
      and "store_bytes (PackYUY2 y0 u y1 v) = [B0, B1, B2, B3]"
  shows "unat B0 = unat y0 \<and> unat B1 = unat u \<and> unat B2 = unat y1 \<and> unat B3 = unat v"
proof -
  have lt: "unat y0 < 256" "unat u < 256" "unat y1 < 256" "unat v < 256"
    using assms(1) by auto
  have "[B0, B1, B2, B3] = [ucast y0, ucast u, ucast y1, ucast v]"
    using store_bytes_PackYUY2 [OF lt] assms(2) by simp
  then show ?thesis using lt by (simp add: unat_ucast_byte)
qed

section \<open>A solid red image through both encoders\<close>

lemma red_is_255_0_0: "red = unorm_texel 255 0 0 255"
  by (simp add: red_def unorm_texel_def unorm8_to_float_def)

lemma yuyv_red: "CSMain_yuyv (solid red) params_4x2 (1, 1) = (41, 226, 41, 106)"
  by code_simp

lemma yuyv_sb_red: "CSMain_yuyv_sb (solid red) params_4x2 (1, 1) = (81, 90, 81, 240)"
  by code_simp

lemma CSMain_red: "CSMain (solid red) params_4x2 (1, 1) = Some (12, 1781129769)"
  by code_simp

lemma store_bytes_red: "store_bytes 1781129769 = [41, 226, 41, 106]"
  by (simp add: store_bytes_def)

section \<open>Studio range of the stored bytes\<close>

text \<open>
  C1. Whatever the input texture and the work item, a word stored by the 4:2:2 encode
  (either shader) holds, byte by byte, two lumas \<open>Y0\<close> and \<open>Y1\<close> in \<open>[16, 235]\<close> and
  two chromas \<open>U\<close> and \<open>V\<close> in \<open>[16, 240]\<close>.
\<close>

theorem yuy2_bytes_in_studio_range:
  assumes "CSMain tex p tid = Some (off, w) \<or> CSMain_sb tex p tid = Some (off, w)"
      and "store_bytes w = [Y0, U, Y1, V]"
  shows "16 \<le> unat Y0 \<and> unat Y0 \<le> 235 \<and> 16 \<le> unat Y1 \<and> unat Y1 \<le> 235
         \<and> 16 \<le> unat U \<and> unat U \<le> 240 \<and> 16 \<le> unat V \<and> unat V \<le> 240"
  using assms(1)
proof
  assume s: "CSMain tex p tid = Some (off, w)"
  obtain y0 u y1 v where f: "CSMain_yuyv tex p tid = (y0, u, y1, v)"
    by (cases "CSMain_yuyv tex p tid") auto
  have r: "16 \<le> unat y0 \<and> unat y0 \<le> 235 \<and> 16 \<le> unat y1 \<and> unat y1 \<le> 235
         \<and> 16 \<le> unat u \<and> unat u \<le> 240 \<and> 16 \<le> unat v \<and> unat v \<le> 240"
    by (rule CSMain_yuyv_range [OF f])
  have "store_bytes (PackYUY2 y0 u y1 v) = [Y0, U, Y1, V]"
    using CSMain_Some_word [OF s f] assms(2) by simp
  from studio_fields_bytes [OF r this] r show ?thesis by simp
next
  assume s: "CSMain_sb tex p tid = Some (off, w)"
  obtain y0 u y1 v where f: "CSMain_yuyv_sb tex p tid = (y0, u, y1, v)"
    by (cases "CSMain_yuyv_sb tex p tid") auto
  have r: "16 \<le> unat y0 \<and> unat y0 \<le> 235 \<and> 16 \<le> unat y1 \<and> unat y1 \<le> 235
         \<and> 16 \<le> unat u \<and> unat u \<le> 240 \<and> 16 \<le> unat v \<and> unat v \<le> 240"
    by (rule CSMain_yuyv_sb_range [OF f])
  have "store_bytes (PackYUY2 y0 u y1 v) = [Y0, U, Y1, V]"
    using CSMain_sb_Some_word [OF s f] assms(2) by simp
  from studio_fields_bytes [OF r this] r show ?thesis by simp
qed

theorem yuy2_bytes_in_studio_range_witness:
  "CSMain (solid red) params_4x2 (1, 1) = Some (12, 1781129769)
   \<and> store_bytes 1781129769 = [41, 226, 41, 106]
   \<and> 16 \<le> unat (41 :: byte) \<and> unat (41 :: byte) \<le> 235
   \<and> 16 \<le> unat (226 :: byte) \<and> unat (226 :: byte) \<le> 240
   \<and> 16 \<le> unat (106 :: byte) \<and> unat (106 :: byte) \<le> 240"
proof -
  note h1 = CSMain_red and h2 = store_bytes_red
  from yuy2_bytes_in_studio_range [OF disjI1 [OF h1] h2] h1 h2 show ?thesis
    by blast
qed

section \<open>Byte order of a macropixel\<close>

text \<open>
  C7. A word stored by the 4:2:2 encode is \<open>(v << 24) | (y1 << 16) | (u << 8) | y0\<close> of
  four fields below 256, so that its little-endian bytes are \<open>[Y0, U, Y1, V]\<close>.
\<close>

theorem yuy2_word_layout:
  assumes "(CSMain tex p tid = Some (off, w) \<and> CSMain_yuyv tex p tid = (y0, u, y1, v))
         \<or> (CSMain_sb tex p tid = Some (off, w) \<and> CSMain_yuyv_sb tex p tid = (y0, u, y1, v))"
  shows "w = (push_bit 24 v OR push_bit 16 y1 OR push_bit 8 u OR y0)
         \<and> unat y0 < 256 \<and> unat u < 256 \<and> unat y1 < 256 \<and> unat v < 256
         \<and> store_bytes w = [ucast y0, ucast u, ucast y1, ucast v]"
proof -
  have w: "w = PackYUY2 y0 u y1 v"
    using assms CSMain_Some_word CSMain_sb_Some_word by blast
  have "16 \<le> unat y0 \<and> unat y0 \<le> 235 \<and> 16 \<le> unat y1 \<and> unat y1 \<le> 235
         \<and> 16 \<le> unat u \<and> unat u \<le> 240 \<and> 16 \<le> unat v \<and> unat v \<le> 240"
    using assms CSMain_yuyv_range CSMain_yuyv_sb_range by blast
  then have lt: "unat y0 < 256" "unat u < 256" "unat y1 < 256" "unat v < 256"
    by auto
  show ?thesis
    using w lt store_bytes_PackYUY2 [OF lt] by (simp add: PackYUY2_def)
qed

theorem yuy2_word_layout_witness:
  "CSMain (solid red) params_4x2 (1, 1) = Some (12, 1781129769)
   \<and> CSMain_yuyv (solid red) params_4x2 (1, 1) = (41, 226, 41, 106)
   \<and> (1781129769 :: uint) = (push_bit 24 106 OR push_bit 16 41 OR push_bit 8 226 OR 41)
   \<and> store_bytes 1781129769 = [41, 226, 41, 106]"
proof -
  note h1 = CSMain_red and h2 = yuyv_red
  from yuy2_word_layout [OF disjI1 [OF conjI [OF h1 h2]]] h1 h2 show ?thesis
    by simp
qed

section \<open>Odd widths\<close>

lemma trailing_yuyv:
  assumes "fst tid * 2 + 1 = ImageWidth p"
  shows "CSMain_yuyv tex p tid = duplicated_pixel_yuyv (tex (unat (fst tid * 2)) (unat (snd tid)))"
  using assms
  by (simp add: CSMain_yuyv_def duplicated_pixel_yuyv_def Let_def split: prod.splits)

lemma trailing_yuyv_sb:
  assumes "fst tid * 2 + 1 = ImageWidth p"
  shows "CSMain_yuyv_sb tex p tid = duplicated_pixel_yuyv_sb (tex (unat (fst tid * 2)) (unat (snd tid)))"
  using assms
  by (simp add: CSMain_yuyv_sb_def duplicated_pixel_yuyv_sb_def Let_def split: prod.splits)

lemma double_small:
  fixes x :: uint
  assumes "unat x < 2 ^ 31"
  shows "unat (x * 2) = 2 * unat x"
  using assms by (simp add: unat_word_ariths)

lemma width_one_first_column:
  fixes x :: uint
  assumes "unat x < 2 ^ 31"
  shows "x * 2 < 1 \<longleftrightarrow> x = 0"
proof -
  have "x * 2 < 1 \<longleftrightarrow> unat (x * 2) < 1" by (simp add: word_less_nat_alt)
  also have "\<dots> \<longleftrightarrow> unat x = 0" using double_small [OF assms] by simp
  also have "\<dots> \<longleftrightarrow> x = 0" by (simp add: unat_eq_0)
  finally show ?thesis .
qed

lemma width_one_CSMain:
  assumes "ImageWidth p = 1" "unat (fst tid) < 2 ^ 31"
  shows "CSMain tex p tid =
     (if fst tid = 0 \<and> snd tid < ImageHeight p
      then Some (snd tid * 4,
        case duplicated_pixel_yuyv (tex 0 (unat (snd tid))) of (y0, u, y1, v) \<Rightarrow> PackYUY2 y0 u y1 v)
      else None)"
proof (cases "fst tid = 0 \<and> snd tid < ImageHeight p")
  case True
  then have "fst tid * 2 + 1 = ImageWidth p" using assms by simp
  from trailing_yuyv [OF this, of tex] True assms show ?thesis
    by (auto simp add: CSMain_def Let_def not_le split: prod.splits)
next
  case False
  then have "\<not> fst tid * 2 < 1 \<or> \<not> snd tid < ImageHeight p"
    using width_one_first_column [OF assms(2)] by simp
  then have "1 \<le> fst tid * 2 \<or> ImageHeight p \<le> snd tid"
    by (simp only: not_less)
  with False assms(1) show ?thesis by (simp add: CSMain_def Let_def)
qed

text \<open>
  C5. The work item of the trailing pixel of an odd-width row (\<open>2 id.x + 1 = W\<close>)
  computes the macropixel of that pixel paired with itself: equal lumas and the pixel's
  own chroma, in either shader. For \<open>W = 1\<close> a row is one macropixel: among the
  work items a dispatch can run (\<open>id.x < 2^31\<close>) only the one with \<open>id.x = 0\<close>
  stores, one word per row \<open>id.y < H\<close>, at byte offset \<open>4 id.y\<close>, and that word is
  the macropixel of the single pixel of the row.
\<close>

theorem odd_width_duplicates_trailing_pixel:
  "(fst tid * 2 + 1 = ImageWidth p \<longrightarrow>
      CSMain_yuyv tex p tid = duplicated_pixel_yuyv (tex (unat (fst tid * 2)) (unat (snd tid)))
      \<and> CSMain_yuyv_sb tex p tid = duplicated_pixel_yuyv_sb (tex (unat (fst tid * 2)) (unat (snd tid))))
   \<and> (ImageWidth p = 1 \<and> unat (fst tid) < 2 ^ 31 \<longrightarrow>
      (ImageWidth p + 1) div 2 = 1
      \<and> CSMain tex p tid =
         (if fst tid = 0 \<and> snd tid < ImageHeight p
          then Some (snd tid * 4,
            case duplicated_pixel_yuyv (tex 0 (unat (snd tid))) of (y0, u, y1, v) \<Rightarrow> PackYUY2 y0 u y1 v)
          else None))"
  using trailing_yuyv trailing_yuyv_sb width_one_CSMain by simp


theorem odd_width_duplicates_trailing_pixel_witness:
  "CSMain_yuyv (solid red) params_1x2 (0, 1) = (41, 226, 41, 106)
   \<and> CSMain_yuyv_sb (solid red) params_1x2 (0, 1) = (81, 90, 81, 240)
   \<and> CSMain (solid red) params_1x2 (0, 1) = Some (4, PackYUY2 41 226 41 106)"
proof -
  have h1: "fst (0 :: uint, 1 :: uint) * 2 + 1 = ImageWidth params_1x2"
    by (simp add: params_1x2_def)
  have h2: "ImageWidth params_1x2 = 1 \<and> unat (fst (0 :: uint, 1 :: uint)) < 2 ^ 31"
    by (simp add: params_1x2_def)
  have d: "duplicated_pixel_yuyv red = (41, 226, 41, 106)"
    "duplicated_pixel_yuyv_sb red = (81, 90, 81, 240)"
    by code_simp+
  from odd_width_duplicates_trailing_pixel [of "(0, 1)" params_1x2 "solid red"] h1 h2 d
  show ?thesis by (simp add: solid_def params_1x2_def)
qed

section \<open>Alpha of the NV12 decode\<close>

lemma float_to_unorm8_one: "float_to_unorm8 1 = 255"
  by (simp add: float_to_unorm8_def saturate_def)

text \<open>
  C10. Every work item of the NV12 decode inside the image writes, whatever the buffer
  holds and whatever the device returns for misaligned loads, a value whose alpha is
  \<open>1.0\<close>, which an 8-bit UNORM texture stores as 255.
\<close>

theorem nv12_alpha_is_one:
  assumes "fst tid < ImageWidthNV12 p" and "snd tid < ImageHeightNV12 p"
  shows "\<exists>rgba. CSMain_nv12 dev buf p tid = Some (tid, rgba)
           \<and> ch_a rgba = 1 \<and> float_to_unorm8 (ch_a rgba) = 255"
  using assms
  by (auto simp: CSMain_nv12_def Let_def not_le float_to_unorm8_one split: prod.splits)

theorem nv12_alpha_is_one_witness:
  "\<exists>rgba. CSMain_nv12 (\<lambda>_. 0) nv12_black_4x2 params_nv12_4x2 (1, 1) = Some ((1, 1), rgba)
           \<and> ch_a rgba = 1 \<and> float_to_unorm8 (ch_a rgba) = 255"
proof -
  have h1: "fst (1 :: uint, 1 :: uint) < ImageWidthNV12 params_nv12_4x2"
    by (simp add: params_nv12_4x2_def)
  have h2: "snd (1 :: uint, 1 :: uint) < ImageHeightNV12 params_nv12_4x2"
    by (simp add: params_nv12_4x2_def)
  show ?thesis by (rule nv12_alpha_is_one [OF h1 h2])
qed

section \<open>Rejected input formats\<close>

text \<open>
  C9. Given a texture whose format is none of the four recognised ones, \<open>Convert\<close>
  returns the failure \<open>E_INVALIDARG\<close> having done no more than read the descriptor and
  log: no view is created, the constant buffer is neither mapped nor written, nothing is
  bound and nothing is dispatched.
\<close>

theorem Convert_rejects_unrecognised_format:
  assumes "inputTexture = Some texFormat"
      and "texFormat \<notin> {DXGI_FORMAT_B8G8R8A8_UNORM, DXGI_FORMAT_R8G8B8A8_UNORM,
             DXGI_FORMAT_B8G8R8A8_UNORM_SRGB, DXGI_FORMAT_R8G8B8A8_UNORM_SRGB}"
  shows "fst (Convert st inputTexture outputBuffer width height) = E_INVALIDARG
         \<and> FAILED (fst (Convert st inputTexture outputBuffer width height))
         \<and> set (snd (Convert st inputTexture outputBuffer width height)) \<subseteq> {GetDesc, LogError}"
proof -
  have "FAILED E_INVALIDARG" by (simp add: FAILED_def E_INVALIDARG_def)
  then show ?thesis using assms by (simp add: Convert_def)
qed

theorem Convert_rejects_unrecognised_format_witness:
  "Convert initialised (Some 2) True 4 2 = (E_INVALIDARG, [GetDesc, LogError])
   \<and> FAILED (fst (Convert initialised (Some 2) True 4 2))"
proof -
  have h: "(2 :: nat) \<notin> {DXGI_FORMAT_B8G8R8A8_UNORM, DXGI_FORMAT_R8G8B8A8_UNORM,
             DXGI_FORMAT_B8G8R8A8_UNORM_SRGB, DXGI_FORMAT_R8G8B8A8_UNORM_SRGB}"
    by (simp add: DXGI_FORMAT_B8G8R8A8_UNORM_def DXGI_FORMAT_R8G8B8A8_UNORM_def
        DXGI_FORMAT_B8G8R8A8_UNORM_SRGB_def DXGI_FORMAT_R8G8B8A8_UNORM_SRGB_def)
  have c: "Convert initialised (Some 2) True 4 2 = (E_INVALIDARG, [GetDesc, LogError])"
    using h by (simp add: Convert_def initialised_def)
  from Convert_rejects_unrecognised_format [OF refl h, of initialised True 4 2] c
  show ?thesis by simp
qed

section \<open>Buffer sizes\<close>

lemma ceil_div_2: "ceil_div n 2 = (n + 1) div 2"
  by (simp add: ceil_div_def)

lemma unat_add_no_wrap:
  fixes x y :: uint
  assumes "unat x + unat y < 2 ^ 32"
  shows "unat (x + y) = unat x + unat y"
  using unat_add_lem [of x y] assms by simp

lemma unat_mult_no_wrap:
  fixes x y :: uint
  assumes "unat x * unat y < 2 ^ 32"
  shows "unat (x * y) = unat x * unat y"
  using unat_mult_lem [of x y] assms by simp

lemma unat_yuy2Size:
  fixes W H :: uint
  assumes "1 \<le> unat H" and "ceil_div (unat W) 2 * unat H * 4 < 2 ^ 32"
  shows "unat (((W + 1) div 2) * H * 4) = ceil_div (unat W) 2 * unat H * 4"
proof -
  define c where "c = (unat W + 1) div 2"
  have b: "c * unat H * 4 < 2 ^ 32" using assms(2) by (simp add: ceil_div_2 c_def)
  have "c * 1 \<le> c * unat H" using assms(1) by (intro mult_le_mono2)
  then have "c * 1 * 4 \<le> c * unat H * 4" by (intro mult_le_mono1)
  then have c4: "c * 4 < 2 ^ 32" using b by linarith
  then have w1: "unat W + 1 < 2 ^ 32" by (simp add: c_def)
  have cH: "c * unat H < 2 ^ 32" using b by simp
  have u1: "unat (W + 1) = unat W + 1" using unat_add_no_wrap [of W 1] w1 by simp
  have u2: "unat ((W + 1) div 2) = c" by (simp add: unat_div u1 c_def)
  have u3: "unat (((W + 1) div 2) * H) = c * unat H"
    using unat_mult_no_wrap [of "(W + 1) div 2" H] cH by (simp add: u2)
  have "unat (((W + 1) div 2) * H * 4) = c * unat H * 4"
    using unat_mult_no_wrap [of "((W + 1) div 2) * H" 4] b by (simp add: u3)
  then show ?thesis by (simp add: ceil_div_2 c_def)
qed

lemma unat_nv12_totalSize:
  fixes W H :: uint
  assumes "unat W * unat H * 3 div 2 < 2 ^ 32"
  shows "unat (W * H + W * H div 2) = unat W * unat H * 3 div 2"
proof -
  define n where "n = unat W * unat H"
  have e: "n * 3 div 2 = n + n div 2" by presburger
  have b: "n + n div 2 < 2 ^ 32" using assms by (simp add: n_def e [symmetric])
  then have n: "n < 2 ^ 32" by simp
  have u1: "unat (W * H) = n" using unat_mult_no_wrap [of W H] n by (simp add: n_def)
  have u2: "unat (W * H div 2) = n div 2" by (simp add: unat_div u1)
  have "unat (W * H + W * H div 2) = n + n div 2"
    using unat_add_no_wrap [of "W * H" "W * H div 2"] b by (simp add: u1 u2)
  then show ?thesis by (simp add: e n_def)
qed

text \<open>
  C8, as amended. For \<open>W, H \<ge> 1\<close> such that \<open>ceil(W/2) H 4\<close> fits in 32 bits, the
  4:2:2 output buffer is created with, and the readback reports, \<open>ceil(W/2) H 4\<close>
  bytes; such that \<open>W H 3/2\<close> fits in 32 bits, the NV12 input buffer is created with
  \<open>W H 3/2 = W H + W H / 2\<close> bytes (integer division).
\<close>

theorem buffer_sizes_without_wrap:
  "(1 \<le> unat W \<and> 1 \<le> unat H \<and> ceil_div (unat W) 2 * unat H * 4 < 2 ^ 32 \<longrightarrow>
      map unat (buffer_sizes (snd (CreateOutputBuffer hr W H))) = [ceil_div (unat W) 2 * unat H * 4]
      \<and> unat (fst (snd (ReadOutputBuffer cr mr True W H True ds))) = ceil_div (unat W) 2 * unat H * 4)
   \<and> (1 \<le> unat W \<and> 1 \<le> unat H \<and> unat W * unat H * 3 div 2 < 2 ^ 32 \<longrightarrow>
      map unat (buffer_sizes (snd (CreateNV12InputBuffer hr W H))) = [unat W * unat H * 3 div 2]
      \<and> unat W * unat H * 3 div 2 = unat W * unat H + unat W * unat H div 2)"
proof -
  have a: "map unat (buffer_sizes (snd (CreateOutputBuffer hr W H))) = [unat (((W + 1) div 2) * H * 4)]"
    by (simp add: CreateOutputBuffer_def buffer_sizes_def List.map_filter_def Let_def)
  have r: "fst (snd (ReadOutputBuffer cr mr True W H True ds)) = ((W + 1) div 2) * H * 4"
    by (simp add: ReadOutputBuffer_def Let_def)
  have n: "map unat (buffer_sizes (snd (CreateNV12InputBuffer hr W H))) = [unat (W * H + W * H div 2)]"
    by (simp add: CreateNV12InputBuffer_def buffer_sizes_def List.map_filter_def Let_def)
  have e: "unat W * unat H * 3 div 2 = unat W * unat H + unat W * unat H div 2"
    by presburger
  show ?thesis
    unfolding a r n using unat_yuy2Size [of H W] unat_nv12_totalSize [of W H] e by simp
qed

theorem buffer_sizes_without_wrap_witness:
  "map unat (buffer_sizes (snd (CreateOutputBuffer S_OK 5 3))) = [36]
   \<and> unat (fst (snd (ReadOutputBuffer S_OK S_OK True 5 3 True 0))) = 36
   \<and> map unat (buffer_sizes (snd (CreateNV12InputBuffer S_OK 4 2))) = [12]"
proof -
  have h1: "1 \<le> unat (5 :: uint) \<and> 1 \<le> unat (3 :: uint) \<and> ceil_div (unat (5 :: uint)) 2 * unat (3 :: uint) * 4 < 2 ^ 32"
    by (simp add: ceil_div_def)
  have h2: "1 \<le> unat (4 :: uint) \<and> 1 \<le> unat (2 :: uint) \<and> unat (4 :: uint) * unat (2 :: uint) * 3 div 2 < 2 ^ 32"
    by simp
  from buffer_sizes_without_wrap [of 5 3 S_OK S_OK S_OK 0] h1
  have a: "map unat (buffer_sizes (snd (CreateOutputBuffer S_OK 5 3))) = [36]
   \<and> unat (fst (snd (ReadOutputBuffer S_OK S_OK True 5 3 True 0))) = 36"
    by (simp add: ceil_div_def)
  from buffer_sizes_without_wrap [of 4 2 S_OK S_OK S_OK 0] h2
  have b: "map unat (buffer_sizes (snd (CreateNV12InputBuffer S_OK 4 2))) = [12]"
    by simp
  from a b show ?thesis by simp
qed

text \<open>
  C8, as stated, fails where the \<open>UINT\<close> product wraps: for \<open>W = 2\<close> and
  \<open>H = 2^30\<close> the buffer is created with 0 bytes, not with \<open>2^32\<close>.
\<close>

theorem output_buffer_size_wraps:
  "1 \<le> unat (2 :: uint) \<and> 1 \<le> unat (1073741824 :: uint)
   \<and> map unat (buffer_sizes (snd (CreateOutputBuffer S_OK 2 1073741824))) = [0]
   \<and> ceil_div (unat (2 :: uint)) 2 * unat (1073741824 :: uint) * 4 = 4294967296"
  by (simp add: CreateOutputBuffer_def buffer_sizes_def List.map_filter_def Let_def ceil_div_def)

section \<open>The dispatch grid of the encode\<close>

lemma unat_of_nat32:
  assumes "n < 2 ^ 32"
  shows "unat (of_nat n :: uint) = n"
  using assms by (simp add: unat_of_nat)

lemma idx_div: "x < c \<Longrightarrow> (y * c + x) div c = (y :: nat)"
  by simp

lemma idx_mod: "x < c \<Longrightarrow> (y * c + x) mod c = (x :: nat)"
  by simp

lemma idx_bound:
  fixes x y c h :: nat
  assumes "x < c" "y < h"
  shows "y * c + x < c * h"
proof -
  have "(y + 1) * c \<le> h * c" using assms(2) by (intro mult_le_mono1) simp
  then show ?thesis using assms(1) by (simp add: algebra_simps)
qed

lemma ceil_ceil: "ceil_div (ceil_div n 2) 16 = (n + 31) div 32"
proof -
  have "(n + 31) div 32 = (n + 31) div 2 div 16"
    using div_mult2_eq [of "n + 31" 2 16] by simp
  also have "(n + 31) div 2 = (n + 1) div 2 + 15" by linarith
  finally show ?thesis by (simp add: ceil_div_def)
qed

lemma unat_dispatchX:
  assumes "unat W + 31 < 2 ^ 32"
  shows "unat (dispatchX W) = (unat W + 31) div 32"
  using unat_add_no_wrap [of W 31] assms by (simp add: dispatchX_def unat_div)

lemma unat_dispatchY:
  assumes "unat H + 15 < 2 ^ 32"
  shows "unat (dispatchY H) = (unat H + 15) div 16"
  using unat_add_no_wrap [of H 15] assms by (simp add: dispatchY_def unat_div)

lemma thread_ids_set:
  "set (thread_ids X Y) = (\<lambda>(x, y). (of_nat x, of_nat y)) ` ({..<16 * unat X} \<times> {..<16 * unat Y})"
  by (simp add: thread_ids_def lessThan_atLeast0)

lemma thread_ids_distinct:
  assumes "16 * unat X \<le> 2 ^ 32" and "16 * unat Y \<le> 2 ^ 32"
  shows "distinct (thread_ids X Y)"
proof -
  have "inj_on (\<lambda>(x, y). (of_nat x :: uint, of_nat y :: uint))
          (set (List.product [0..<16 * unat X] [0..<16 * unat Y]))"
  proof (rule inj_onI)
    fix a b
    assume a: "a \<in> set (List.product [0..<16 * unat X] [0..<16 * unat Y])"
       and b: "b \<in> set (List.product [0..<16 * unat X] [0..<16 * unat Y])"
       and e: "(case a of (x, y) \<Rightarrow> (of_nat x :: uint, of_nat y :: uint))
             = (case b of (x, y) \<Rightarrow> (of_nat x, of_nat y))"
    obtain x y where ad: "a = (x, y)" by (cases a)
    obtain x' y' where bd: "b = (x', y')" by (cases b)
    have lt: "x < 2 ^ 32" "y < 2 ^ 32" "x' < 2 ^ 32" "y' < 2 ^ 32"
      using a b assms unfolding ad bd by auto
    have "unat (of_nat x :: uint) = unat (of_nat x' :: uint)"
         "unat (of_nat y :: uint) = unat (of_nat y' :: uint)"
      using e unfolding ad bd by auto
    then show "a = b" using lt unfolding ad bd by (simp add: unat_of_nat32)
  qed
  then show ?thesis
    unfolding thread_ids_def by (simp add: distinct_map distinct_product)
qed

text \<open>A work item of the byte-address shader, for sizes that do not wrap.\<close>

lemma CSMain_on_grid:
  assumes W: "ImageWidth p = W" and H: "ImageHeight p = H"
      and w: "unat W + 1 < 2 ^ 32"
      and b: "ceil_div (unat W) 2 * unat H * 4 < 2 ^ 32"
      and x: "unat (fst tid) < 2 ^ 31"
  shows "CSMain tex p tid =
     (if unat (fst tid) < ceil_div (unat W) 2 \<and> unat (snd tid) < unat H
      then Some (of_nat (4 * (unat (snd tid) * ceil_div (unat W) 2 + unat (fst tid))),
                 case CSMain_yuyv tex p tid of (y0, u, y1, v) \<Rightarrow> PackYUY2 y0 u y1 v)
      else None)"
proof -
  define c where "c = ceil_div (unat W) 2"
  define xx where "xx = unat (fst tid)"
  define yy where "yy = unat (snd tid)"
  have c: "c = (unat W + 1) div 2" by (simp add: c_def ceil_div_2)
  have px: "unat (fst tid * 2) = 2 * xx"
    using unat_mult_no_wrap [of "fst tid" 2] x by (simp add: xx_def)
  have u1: "unat (W + 1) = unat W + 1" using unat_add_no_wrap [of W 1] w by simp
  have cw: "unat ((W + 1) div 2) = c" by (simp add: unat_div u1 c)
  have c1: "(W \<le> fst tid * 2) \<longleftrightarrow> c \<le> xx"
    unfolding word_le_nat_alt px c by linarith
  have c2: "(H \<le> snd tid) \<longleftrightarrow> unat H \<le> yy"
    by (simp add: word_le_nat_alt yy_def)
  show ?thesis
  proof (cases "xx < c \<and> yy < unat H")
    case False
    then have "W \<le> fst tid * 2 \<or> H \<le> snd tid" using c1 c2 by auto
    then show ?thesis
      using False unfolding CSMain_def Let_def W H c_def [symmetric] xx_def [symmetric] yy_def [symmetric]
      by simp
  next
    case True
    then have nb: "\<not> (W \<le> fst tid * 2 \<or> H \<le> snd tid)" using c1 c2 by auto
    have i: "yy * c + xx < c * unat H" using True by (intro idx_bound) auto
    have cH: "c * unat H * 4 < 2 ^ 32" using b by (simp add: c_def)
    then have cH1: "c * unat H < 2 ^ 32" by simp
    have "yy * c \<le> yy * c + xx" by simp
    then have yc: "yy * c < 2 ^ 32" using i cH1 by linarith
    have m1: "unat (snd tid * ((W + 1) div 2)) = yy * c"
      using unat_mult_no_wrap [of "snd tid" "(W + 1) div 2"] yc by (simp add: cw yy_def)
    have m2: "unat (snd tid * ((W + 1) div 2) + fst tid) = yy * c + xx"
      using unat_add_no_wrap [of "snd tid * ((W + 1) div 2)" "fst tid"] i cH1
      by (simp add: m1 xx_def)
    have m3: "unat (((W + 1) div 2) * H) = c * unat H"
      using unat_mult_no_wrap [of "(W + 1) div 2" H] cH1 by (simp add: cw)
    have lt: "snd tid * ((W + 1) div 2) + fst tid < ((W + 1) div 2) * H"
      unfolding word_less_nat_alt m2 m3 by (rule i)
    have "(yy * c + xx) * 4 < c * unat H * 4" using i by simp
    then have "(yy * c + xx) * 4 < 2 ^ 32" using cH by (rule less_trans)
    then have m4: "unat ((snd tid * ((W + 1) div 2) + fst tid) * 4) = (yy * c + xx) * 4"
      using unat_mult_no_wrap [of "snd tid * ((W + 1) div 2) + fst tid" 4] by (simp add: m2)
    have off: "(snd tid * ((W + 1) div 2) + fst tid) * 4 = of_nat (4 * (yy * c + xx))"
    proof -
      have "(snd tid * ((W + 1) div 2) + fst tid) * 4
            = of_nat (unat ((snd tid * ((W + 1) div 2) + fst tid) * 4))"
        by simp
      also have "\<dots> = of_nat (4 * (yy * c + xx))"
        unfolding m4 by (simp only: mult.commute)
      finally show ?thesis .
    qed
    show ?thesis
      using True nb lt off
      unfolding CSMain_def Let_def W H c_def [symmetric] xx_def [symmetric] yy_def [symmetric]
      by (simp split: prod.splits)
  qed
qed


lemma grid_bounds:
  fixes n :: nat
  shows "16 * ((n + 31) div 32) \<le> (n + 31) div 2"
    and "(n + 1) div 2 \<le> 16 * ((n + 31) div 32)"
    and "16 * ((n + 15) div 16) \<le> n + 15"
    and "n \<le> 16 * ((n + 15) div 16)"
  by linarith+

text \<open>
  C6, as amended. For \<open>W\<close> and \<open>H\<close> such that \<open>W + 31\<close>, \<open>H + 15\<close> and
  \<open>ceil(W/2) H 4\<close> fit in 32 bits, the grid \<open>((W + 31) / 32, (H + 15) / 16)\<close> is
  \<open>(ceil(ceil(W/2) / 16), ceil(H / 16))\<close>; a work item of that grid stores nothing
  exactly when its position is outside \<open>[0, ceil(W/2)) \<times> [0, H)\<close>; the work items are
  pairwise different and every position inside is one of them; and the byte offsets
  stored to are pairwise different and are exactly the multiples of 4 below
  \<open>ceil(W/2) H 4\<close>.
\<close>

theorem encode_grid_covers_once:
  assumes W: "ImageWidth p = W" and H: "ImageHeight p = H"
      and w: "unat W + 31 < 2 ^ 32" and h: "unat H + 15 < 2 ^ 32"
      and b: "ceil_div (unat W) 2 * unat H * 4 < 2 ^ 32"
  shows "unat (dispatchX W) = ceil_div (ceil_div (unat W) 2) 16
       \<and> unat (dispatchY H) = ceil_div (unat H) 16
       \<and> (\<forall>tid \<in> set (thread_ids (dispatchX W) (dispatchY H)).
            (CSMain tex p tid = None)
            = (\<not> (unat (fst tid) < ceil_div (unat W) 2 \<and> unat (snd tid) < unat H)))
       \<and> distinct (thread_ids (dispatchX W) (dispatchY H))
       \<and> (\<forall>x < ceil_div (unat W) 2. \<forall>y < unat H.
            (of_nat x, of_nat y) \<in> set (thread_ids (dispatchX W) (dispatchY H)))
       \<and> distinct (map fst (Dispatch_stores tex p (dispatchX W) (dispatchY H)))
       \<and> set (map fst (Dispatch_stores tex p (dispatchX W) (dispatchY H)))
           = (\<lambda>i. of_nat (4 * i)) ` {..<ceil_div (unat W) 2 * unat H}"
proof -
  define c where "c = ceil_div (unat W) 2"
  define ids where "ids = thread_ids (dispatchX W) (dispatchY H)"
  define P where "P = (\<lambda>tid :: uint \<times> uint. unat (fst tid) < c \<and> unat (snd tid) < unat H)"
  define g where "g = (\<lambda>tid :: uint \<times> uint. (of_nat (4 * (unat (snd tid) * c + unat (fst tid))) :: uint))"
  have c: "c = (unat W + 1) div 2" by (simp add: c_def ceil_div_2)
  have gx: "unat (dispatchX W) = (unat W + 31) div 32" by (rule unat_dispatchX [OF w])
  have gy: "unat (dispatchY H) = (unat H + 15) div 16" by (rule unat_dispatchY [OF h])
  have lx: "16 * unat (dispatchX W) < 2 ^ 31"
    using grid_bounds(1) [of "unat W"] w unfolding gx by simp
  have ly: "16 * unat (dispatchY H) < 2 ^ 32"
    using grid_bounds(3) [of "unat H"] h unfolding gy by simp
  have cx: "c \<le> 16 * unat (dispatchX W)"
    using grid_bounds(2) [of "unat W"] unfolding gx c by simp
  have cy: "unat H \<le> 16 * unat (dispatchY H)"
    using grid_bounds(4) [of "unat H"] unfolding gy by simp
  have cb: "c * unat H * 4 < 2 ^ 32" using b by (simp add: c_def)
  have w1: "unat W + 1 < 2 ^ 32" using w by simp
  have pair: "(of_nat x, of_nat y) \<in> set ids \<and> unat (of_nat x :: uint) = x \<and> unat (of_nat y :: uint) = y"
    if "x < 16 * unat (dispatchX W)" "y < 16 * unat (dispatchY H)" for x y
  proof -
    have "x < 2 ^ 32" "y < 2 ^ 32" using that lx ly by auto
    then show ?thesis using that by (auto simp: ids_def thread_ids_set unat_of_nat32)
  qed
  have grid: "unat (fst tid) < 16 * unat (dispatchX W) \<and> unat (snd tid) < 16 * unat (dispatchY H)"
    if mem: "tid \<in> set ids" for tid
  proof -
    obtain x y where t: "tid = (of_nat x, of_nat y)"
      and xy: "x < 16 * unat (dispatchX W)" "y < 16 * unat (dispatchY H)"
      using mem by (auto simp: ids_def thread_ids_set)
    show ?thesis using pair [OF xy] xy unfolding t by simp
  qed
  have char: "CSMain tex p tid =
      (if P tid then Some (g tid, case CSMain_yuyv tex p tid of (y0, u, y1, v) \<Rightarrow> PackYUY2 y0 u y1 v)
       else None)" if "tid \<in> set ids" for tid
  proof -
    have "unat (fst tid) < 2 ^ 31" using grid [OF that] lx by simp
    from CSMain_on_grid [OF W H w1 b this, of tex] show ?thesis
      by (simp add: P_def g_def c_def)
  qed
  have unat_g: "unat (g tid) = 4 * (unat (snd tid) * c + unat (fst tid))
                \<and> unat (snd tid) * c + unat (fst tid) < c * unat H" if "P tid" for tid
  proof -
    have i: "unat (snd tid) * c + unat (fst tid) < c * unat H"
      using that unfolding P_def by (intro idx_bound) auto
    then have "4 * (unat (snd tid) * c + unat (fst tid)) < 2 ^ 32" using cb by simp
    then have "unat (g tid) = 4 * (unat (snd tid) * c + unat (fst tid))"
      unfolding g_def by (rule unat_of_nat32)
    then show ?thesis using i by simp
  qed
  have p1: "unat (dispatchX W) = ceil_div (ceil_div (unat W) 2) 16"
    by (simp add: gx ceil_ceil)
  have p2: "unat (dispatchY H) = ceil_div (unat H) 16"
    by (simp add: gy ceil_div_def)
  have p3: "\<forall>tid \<in> set ids. (CSMain tex p tid = None) = (\<not> P tid)"
    using char by simp
  have p4: "distinct ids"
    unfolding ids_def using lx ly by (intro thread_ids_distinct) auto
  have p5: "\<forall>x < c. \<forall>y < unat H. (of_nat x, of_nat y) \<in> set ids"
    using pair cx cy by (meson less_le_trans)
  have f1: "filter (\<lambda>tid. CSMain tex p tid \<noteq> None) ids = filter P ids"
    by (rule filter_cong) (auto simp: char)
  have f2: "map (fst \<circ> (the \<circ> CSMain tex p)) (filter P ids) = map g (filter P ids)"
    by (rule map_cong) (auto simp: char)
  have ms: "map fst (Dispatch_stores tex p (dispatchX W) (dispatchY H)) = map g (filter P ids)"
    unfolding Dispatch_stores_def List.map_filter_def ids_def [symmetric] f1 map_map f2 ..
  have inj: "inj_on g (set (filter P ids))"
  proof (rule inj_onI)
    fix s t
    assume s: "s \<in> set (filter P ids)" and t: "t \<in> set (filter P ids)" and e: "g s = g t"
    have Ps: "P s" and Pt: "P t" using s t by auto
    have "unat (g s) = unat (g t)" using e by simp
    then have i: "unat (snd s) * c + unat (fst s) = unat (snd t) * c + unat (fst t)"
      using unat_g [OF Ps] unat_g [OF Pt] by simp
    have xs: "unat (fst s) < c" and xt: "unat (fst t) < c" using Ps Pt by (auto simp: P_def)
    have "unat (snd s) = unat (snd t)"
      using idx_div [OF xs, of "unat (snd s)"] idx_div [OF xt, of "unat (snd t)"] i by simp
    moreover have "unat (fst s) = unat (fst t)"
      using idx_mod [OF xs, of "unat (snd s)"] idx_mod [OF xt, of "unat (snd t)"] i by simp
    ultimately show "s = t" by (simp add: prod_eq_iff word_unat_eq_iff)
  qed
  have p6: "distinct (map g (filter P ids))"
    using p4 inj by (simp add: distinct_map)
  have p7: "set (map g (filter P ids)) = (\<lambda>i. of_nat (4 * i)) ` {..<c * unat H}"
  proof (intro set_eqI iffI)
    fix off :: uint
    assume "off \<in> set (map g (filter P ids))"
    then obtain t where t: "P t" and o: "off = g t" by auto
    have "unat (snd t) * c + unat (fst t) < c * unat H" using unat_g [OF t] by simp
    then show "off \<in> (\<lambda>i. of_nat (4 * i)) ` {..<c * unat H}"
      unfolding o g_def by blast
  next
    fix off :: uint
    assume "off \<in> (\<lambda>i. of_nat (4 * i)) ` {..<c * unat H}"
    then obtain i where i: "i < c * unat H" and o: "off = of_nat (4 * i)" by auto
    have c0: "0 < c" using i by (cases c) auto
    define x where "x = i mod c"
    define y where "y = i div c"
    have x: "x < c" using c0 by (simp add: x_def)
    have y: "y < unat H" using i unfolding y_def by (simp add: less_mult_imp_div_less mult.commute)
    have d: "y * c + x = i" by (simp add: x_def y_def)
    have xy: "x < 16 * unat (dispatchX W)" "y < 16 * unat (dispatchY H)"
      using x y cx cy by auto
    define t where "t = (of_nat x :: uint, of_nat y :: uint)"
    have m: "t \<in> set ids" and ux: "unat (fst t) = x" and uy: "unat (snd t) = y"
      using pair [OF xy] by (simp_all add: t_def)
    have "P t" using x y by (simp add: P_def ux uy)
    moreover have "g t = off" unfolding g_def ux uy d o ..
    ultimately show "off \<in> set (map g (filter P ids))" using m by force
  qed
  show ?thesis
    using p1 p2 p3 p4 p5 p6 p7
    unfolding ms ids_def [symmetric] c_def [symmetric] P_def by simp
qed

theorem encode_grid_covers_once_witness:
  "unat (dispatchX 5) = ceil_div (ceil_div (unat (5 :: uint)) 2) 16
   \<and> unat (dispatchY 3) = ceil_div (unat (3 :: uint)) 16
   \<and> distinct (thread_ids (dispatchX 5) (dispatchY 3))
   \<and> distinct (map fst (Dispatch_stores (solid red) params_5x3 (dispatchX 5) (dispatchY 3)))
   \<and> set (map fst (Dispatch_stores (solid red) params_5x3 (dispatchX 5) (dispatchY 3)))
       = (\<lambda>i. of_nat (4 * i)) ` {..<ceil_div (unat (5 :: uint)) 2 * unat (3 :: uint)}"
proof -
  have W: "ImageWidth params_5x3 = 5" and H: "ImageHeight params_5x3 = 3"
    by (simp_all add: params_5x3_def)
  have w: "unat (5 :: uint) + 31 < 2 ^ 32" and h: "unat (3 :: uint) + 15 < 2 ^ 32"
    by simp_all
  have b: "ceil_div (unat (5 :: uint)) 2 * unat (3 :: uint) * 4 < 2 ^ 32"
    by (simp add: ceil_div_def)
  from encode_grid_covers_once [OF W H w h b, of "solid red"] show ?thesis
    by blast
qed

text \<open>
  C6, as stated, fails where \<open>W + 31\<close> wraps: for \<open>W = 2^32 - 1\<close> the grid is 0
  groups wide, not \<open>2^27\<close>.
\<close>

theorem dispatchX_wraps:
  "1 \<le> unat (4294967295 :: uint)
   \<and> unat (dispatchX 4294967295) = 0
   \<and> ceil_div (ceil_div (unat (4294967295 :: uint)) 2) 16 = 134217728"
  by (simp add: dispatchX_def ceil_div_def)

section \<open>What the NV12 decode reads\<close>

lemma nv12_loads_black:
  "CSMain_nv12_loads dev nv12_black_4x2 params_nv12_4x2 (0, 0) = (269488144, 2155905152, dev 9)"
  by (simp add: CSMain_nv12_loads_def Load_def load_word_def nv12_black_4x2_def
      params_nv12_4x2_def Let_def)

lemma YUVToRGB_of_words:
  assumes "0 \<le> v"
  shows "YUVToRGB 269488144 2155905152 v = (1, 0, 1)"
proof -
  have r1: "1 \<le> 1 * ((269488144 - 16) / 219) + 0 * ((2155905152 - 128) / 224)
            + 1.402 * ((v - 128) / 224)"
    using assms by (simp add: field_simps)
  have g0: "1 * ((269488144 - 16) / 219) + - 0.344 * ((2155905152 - 128) / 224)
            + - 0.714 * ((v - 128) / 224) \<le> 0"
    using assms by (simp add: field_simps)
  have b1: "(1::real) \<le> 1 * ((269488144 - 16) / 219) + 1.772 * ((2155905152 - 128) / 224)
            + 0 * ((v - 128) / 224)"
    by simp
  show ?thesis
    unfolding YUVToRGB_def Let_def mul_def dot_def YUV_TO_RGB_MATRIX_def prod.case saturate_def
    using r1 g0 b1 by (simp only: prod.inject min_def max_def) auto
qed

lemma to_unorm8_magenta: "to_unorm8 (1, 0, 1) = (255, 0, 255)"
  by (simp add: to_unorm8_def float_to_unorm8_def saturate_def)

lemma decode_black_bytes: "to_unorm8 (YUVToRGB 16 128 128) = (0, 0, 0)"
  by (simp add: to_unorm8_def float_to_unorm8_def saturate_def YUVToRGB_def mul_def dot_def
      YUV_TO_RGB_MATRIX_def Let_def)

text \<open>
  C2. For a black 4 by 2 NV12 frame (every luma byte 16, every chroma byte 128) the work
  item of pixel \<open>(0, 0)\<close> loads at the offsets the claim names, 0 for luma and 8 and 9
  for chroma, but takes as luma and as U the whole 32-bit words there, \<open>0x10101010\<close>
  and \<open>0x80808080\<close>, and as V whatever the device returns for the misaligned address 9.
  It writes magenta, where the three single bytes decode to black.
\<close>

theorem nv12_decode_loads_words:
  "CSMain_nv12_loads dev nv12_black_4x2 params_nv12_4x2 (0, 0) = (269488144, 2155905152, dev 9)
   \<and> nv12_black_4x2 ! 0 = 16 \<and> nv12_black_4x2 ! 8 = 128 \<and> nv12_black_4x2 ! 9 = 128
   \<and> (\<exists>rgba. CSMain_nv12 dev nv12_black_4x2 params_nv12_4x2 (0, 0) = Some ((0, 0), rgba)
         \<and> to_unorm8 (ch_r rgba, ch_g rgba, ch_b rgba) = (255, 0, 255))
   \<and> to_unorm8 (YUVToRGB 16 128 128) = (0, 0, 0)"
proof -
  have "CSMain_nv12 dev nv12_black_4x2 params_nv12_4x2 (0, 0)
        = Some ((0, 0), \<lparr>ch_r = 1, ch_g = 0, ch_b = 1, ch_a = 1\<rparr>)"
  proof -
    have c: "\<not> (ImageWidthNV12 params_nv12_4x2 \<le> fst (0 :: uint, 0 :: uint)
               \<or> ImageHeightNV12 params_nv12_4x2 \<le> snd (0 :: uint, 0 :: uint))"
      by (simp add: params_nv12_4x2_def)
    have "(0 :: real) \<le> real (unat (dev 9))" by (rule of_nat_0_le_iff)
    from YUVToRGB_of_words [OF this]
    have y: "YUVToRGB (real (unat (269488144 :: uint))) (real (unat (2155905152 :: uint)))
               (real (unat (dev 9))) = (1, 0, 1)"
      by simp
    show ?thesis
      unfolding CSMain_nv12_def nv12_loads_black prod.case Let_def y using c by simp
  qed
  then show ?thesis
    using nv12_loads_black [of dev] to_unorm8_magenta decode_black_bytes
    by (simp add: nv12_black_4x2_def)
qed

section \<open>The two conversion functions\<close>

text \<open>
  C3. The two \<open>RGBToYUV\<close> functions do not agree up to rounding: for pure blue their
  byte triples are \<open>(41, 226, 106)\<close> and \<open>(41, 240, 110)\<close>, for pure green
  \<open>(145, 63, 16)\<close> and \<open>(145, 54, 34)\<close>.
\<close>

theorem RGBToYUV_variants_disagree:
  "byte_triple (RGBToYUV (0, 0, 1)) = (41, 226, 106)
   \<and> byte_triple (RGBToYUV_sb (0, 0, 1)) = (41, 240, 110)
   \<and> byte_triple (RGBToYUV (0, 1, 0)) = (145, 63, 16)
   \<and> byte_triple (RGBToYUV_sb (0, 1, 0)) = (145, 54, 34)"
  by code_simp

section \<open>Round trip of solid red\<close>

lemma decode_41_226_106: "decode_first_pixel (41, 226, 41, 106) = (0, 9, 227)"
  by (simp add: decode_first_pixel_def to_unorm8_def YUVToRGB_def mul_def dot_def
      YUV_TO_RGB_MATRIX_def saturate_def float_to_unorm8_def Let_def)

lemma decode_81_90_240: "decode_first_pixel (81, 90, 81, 240) = (254, 0, 0)"
  by (simp add: decode_first_pixel_def to_unorm8_def YUVToRGB_def mul_def dot_def
      YUV_TO_RGB_MATRIX_def saturate_def float_to_unorm8_def Let_def)

lemma decode_81_95_240: "decode_first_pixel (81, 95, 81, 240) = (254, 0, 9)"
  by (simp add: decode_first_pixel_def to_unorm8_def YUVToRGB_def mul_def dot_def
      YUV_TO_RGB_MATRIX_def saturate_def float_to_unorm8_def Let_def)

lemma byte_triple_red: "byte_triple (RGBToYUV (1, 0, 0)) = (81, 95, 240)"
  by code_simp

text \<open>
  C4. A solid red texture (R = 255, G = 0, B = 0) encoded by the byte-address shader
  gives the macropixel \<open>(41, 226, 41, 106)\<close>, which the decode colour transform turns
  into \<open>(0, 9, 227)\<close>: blue. The shader hands \<open>float3(pixel.b, pixel.g, pixel.r)\<close> to
  \<open>RGBToYUV\<close>, so red is converted as blue. The structured-buffer shader, which takes
  \<open>pixel.rgb\<close>, gives \<open>(81, 90, 81, 240)\<close>, decoded to \<open>(254, 0, 0)\<close>. The colour
  transform of the byte-address shader alone, on red, gives \<open>(81, 95, 240)\<close>, decoded to
  \<open>(254, 0, 9)\<close>.
\<close>

theorem red_round_trip_is_blue:
  "red = unorm_texel 255 0 0 255
   \<and> CSMain_yuyv (solid red) params_4x2 (1, 1) = (41, 226, 41, 106)
   \<and> decode_first_pixel (CSMain_yuyv (solid red) params_4x2 (1, 1)) = (0, 9, 227)
   \<and> CSMain_yuyv_sb (solid red) params_4x2 (1, 1) = (81, 90, 81, 240)
   \<and> decode_first_pixel (CSMain_yuyv_sb (solid red) params_4x2 (1, 1)) = (254, 0, 0)
   \<and> byte_triple (RGBToYUV (1, 0, 0)) = (81, 95, 240)
   \<and> decode_first_pixel (81, 95, 81, 240) = (254, 0, 9)"
  using red_is_255_0_0 yuyv_red yuyv_sb_red decode_41_226_106 decode_81_90_240
    byte_triple_red decode_81_95_240
  by simp

end
